theory Spec2Isabelle
  imports Complex_Main
begin

section \<open>Chat with PDF: the session state and its event handlers\<close>

text \<open>
  The program (\<^verbatim>\<open>chat_with_pdf/chatbot.py\<close>) is one class, \<^verbatim>\<open>State\<close>, whose methods
  glue a PDF parser, a rasterizer, an imaging library, an OCR engine and a
  retrieval/LLM application together. The methods are embedded as functions on the
  session state and on a record of what the program leaves outside itself (files, the
  vector store, the trace of prints and collaborator calls). The collaborators are not
  code of the program: they enter as a record of functions, each returning either the
  exception it raises or its value.
\<close>

subsection \<open>Exceptions\<close>

text \<open>
  The handlers distinguish two classes of exception: \<^verbatim>\<open>except ValueError\<close> around the
  vector-store call and \<^verbatim>\<open>except Exception\<close> elsewhere. An exception carries the message
  that \<^verbatim>\<open>str(e)\<close> prints.
\<close>

datatype exn = ValueError string | OtherException string

fun str_exn :: "exn \<Rightarrow> string" where
  "str_exn (ValueError m) = m"
| "str_exn (OtherException m) = m"

subsection \<open>Strings\<close>

text \<open>
  \<^verbatim>\<open>str.strip()\<close> without arguments removes leading and trailing whitespace. Characters
  are the code points below 256; among them Python counts as whitespace 9 to 13, 28 to 32,
  133 and 160.
\<close>

definition isspace :: "char \<Rightarrow> bool" where
  "isspace c =
     (let n = (of_char c :: nat)
      in (9 \<le> n \<and> n \<le> 13) \<or> (28 \<le> n \<and> n \<le> 32) \<or> n = 133 \<or> n = 160)"

definition strip :: "string \<Rightarrow> string" where
  "strip s = rev (dropWhile isspace (rev (dropWhile isspace s)))"

text \<open>The decimal rendering of a number inside an f-string.\<close>

definition digit :: "nat \<Rightarrow> char" where
  "digit d = ''0123456789'' ! d"

fun str_nat :: "nat \<Rightarrow> string" where
  "str_nat n =
     (if n < 10 then [digit n]
      else str_nat (n div 10) @ [digit (n mod 10)])"

declare str_nat.simps [simp del]

subsection \<open>Data model\<close>

type_synonym path = string

text \<open>A chat message is the dictionary \<^verbatim>\<open>{"role": ..., "content": ...}\<close>.\<close>

record message =
  role :: string
  content :: string

text \<open>The fields of the class \<^verbatim>\<open>State\<close>.\<close>

record State =
  messages :: "message list"
  db_path :: path
  pdf_filename :: string
  knowledge_base_files :: "string list"
  user_question :: string
  upload_status :: string

text \<open>An uploaded file: its name and the bytes that \<^verbatim>\<open>file.read()\<close> returns.\<close>

record upload_file =
  filename :: string
  file_bytes :: string

text \<open>
  A page of a parsed PDF is represented by what \<^verbatim>\<open>page.extract_text()\<close> does on it:
  raise, or return a string or \<^verbatim>\<open>None\<close>.
\<close>

type_synonym page = "exn + string option"

text \<open>The filters of \<^verbatim>\<open>PIL.ImageFilter\<close>; the program uses \<^verbatim>\<open>SHARPEN\<close>.\<close>

datatype ImageFilter =
  BLUR | CONTOUR | DETAIL | EDGE_ENHANCE | EDGE_ENHANCE_MORE | EMBOSS | FIND_EDGES
  | SHARPEN | SMOOTH | SMOOTH_MORE

text \<open>
  The collaborators. Each is a function of the arguments the program passes to it.
  \<^item> \<open>get_upload_dir\<close>: \<^verbatim>\<open>rx.get_upload_dir()\<close>;
  \<^item> \<open>PdfReader\<close>: opening the file at a path and parsing it, \<^verbatim>\<open>PyPDF2.PdfReader(f).pages\<close>;
  \<^item> \<open>convert_from_path\<close>: \<^verbatim>\<open>pdf2image.convert_from_path(pdf_path)\<close>;
  \<^item> \<open>image_convert\<close>: \<^verbatim>\<open>image.convert(mode)\<close>;
  \<^item> \<open>Contrast_enhance\<close>: \<^verbatim>\<open>ImageEnhance.Contrast(image).enhance(factor)\<close>;
  \<^item> \<open>image_filter\<close>: \<^verbatim>\<open>image.filter(f)\<close>;
  \<^item> \<open>image_to_string\<close>: \<^verbatim>\<open>pytesseract.image_to_string(image)\<close>;
  \<^item> \<open>App_from_config\<close>: whether \<^verbatim>\<open>App.from_config\<close> raises, given the vector database
    directory, the only part of the configuration that is not a constant;
  \<^item> \<open>NamedTemporaryFile\<close>: the name of the n-th temporary file;
  \<^item> \<open>app_add\<close>: whether \<^verbatim>\<open>app.add(name, data_type="text")\<close> raises, given the file name
    and the text written to it;
  \<^item> \<open>app_chat\<close>: \<^verbatim>\<open>app.chat(question)\<close>, given what the store holds.
\<close>

record 'img env =
  get_upload_dir :: path
  PdfReader :: "path \<Rightarrow> exn + page list"
  convert_from_path :: "path \<Rightarrow> exn + 'img list"
  image_convert :: "'img \<Rightarrow> string \<Rightarrow> exn + 'img"
  Contrast_enhance :: "'img \<Rightarrow> real \<Rightarrow> exn + 'img"
  image_filter :: "'img \<Rightarrow> ImageFilter \<Rightarrow> exn + 'img"
  image_to_string :: "'img \<Rightarrow> exn + string"
  App_from_config :: "path \<Rightarrow> exn option"
  NamedTemporaryFile :: "nat \<Rightarrow> path"
  app_add :: "path \<Rightarrow> string \<Rightarrow> exn option"
  app_chat :: "path list \<Rightarrow> string \<Rightarrow> exn + string"

text \<open>What the program prints and which collaborators it calls, in order.\<close>

datatype 'img event =
  Print string
  | Call_PdfReader path
  | Call_convert_from_path path
  | Call_image_to_string 'img
  | Call_from_config path
  | Call_add path
  | Call_chat string

text \<open>
  Everything outside the session state: the files written, the documents each vector
  database directory holds (the names handed to \<^verbatim>\<open>app.add\<close>), the number of temporary
  files created so far, and the trace.
\<close>

record 'img world =
  fs :: "path \<rightharpoonup> string"
  vectordb :: "path \<Rightarrow> path list"
  tmp_count :: nat
  events :: "'img event list"

text \<open>
  A handler returns \<open>None\<close> when the method returns and \<open>Some e\<close> when \<open>e\<close> propagates
  out of it, together with the state and world it leaves behind.
\<close>

type_synonym 'img result = "exn option \<times> State \<times> 'img world"

definition emit :: "'img event list \<Rightarrow> 'img world \<Rightarrow> 'img world" where
  "emit evs w = w\<lparr>events := events w @ evs\<rparr>"

subsection \<open>\<^verbatim>\<open>get_app\<close>\<close>

text \<open>
  The application object is identified by the vector database directory it was configured
  with: every call builds a new object on the same directory.
\<close>

definition get_app :: "'img env \<Rightarrow> State \<Rightarrow> (exn + path) \<times> 'img event list" where
  "get_app E s =
     (case App_from_config E (db_path s) of
        Some e \<Rightarrow> Inl e
      | None \<Rightarrow> Inr (db_path s),
      [Call_from_config (db_path s)])"

subsection \<open>\<^verbatim>\<open>preprocess_image\<close>\<close>

definition preprocess_image :: "'img env \<Rightarrow> State \<Rightarrow> 'img \<Rightarrow> exn + 'img" where
  "preprocess_image E s img =
     (case image_convert E img ''L'' of
        Inl e \<Rightarrow> Inl e
      | Inr gray_image \<Rightarrow>
          (case Contrast_enhance E gray_image 2 of
             Inl e \<Rightarrow> Inl e
           | Inr enhanced_image \<Rightarrow> image_filter E enhanced_image SHARPEN))"

subsection \<open>\<^verbatim>\<open>extract_text_with_ocr\<close>\<close>

text \<open>
  The body of the \<^verbatim>\<open>for\<close> loop over the page images, from page index \<open>i\<close> with the text
  accumulated so far. It returns the exception that left the loop, if any, the value of
  \<^verbatim>\<open>extracted_text\<close> at that moment, and the events of the loop.
\<close>

fun ocr_loop ::
  "'img env \<Rightarrow> State \<Rightarrow> 'img list \<Rightarrow> nat \<Rightarrow> string \<Rightarrow> exn option \<times> string \<times> 'img event list"
where
  "ocr_loop E s [] i extracted_text = (None, extracted_text, [])"
| "ocr_loop E s (img # images) i extracted_text =
     (case preprocess_image E s img of
        Inl e \<Rightarrow> (Some e, extracted_text, [])
      | Inr processed_image \<Rightarrow>
          (case image_to_string E processed_image of
             Inl e \<Rightarrow> (Some e, extracted_text, [Call_image_to_string processed_image])
           | Inr text \<Rightarrow>
               (case ocr_loop E s images (i + 1) (extracted_text @ text @ ''\<newline>\<newline>'') of
                  (r, t, evs) \<Rightarrow>
                    (r, t,
                     Call_image_to_string processed_image
                       # Print (''Extracted text from page '' @ str_nat (i + 1)) # evs))))"

text \<open>The \<^verbatim>\<open>try\<close> block and its handler, which prints and falls through to the return.\<close>

definition extract_text_with_ocr :: "'img env \<Rightarrow> State \<Rightarrow> path \<Rightarrow> string \<times> 'img event list" where
  "extract_text_with_ocr E s pdf_path =
     (let start = [Print (''Starting OCR extraction for: '' @ pdf_path),
                   Call_convert_from_path pdf_path]
      in case convert_from_path E pdf_path of
           Inl e \<Rightarrow> ('''', start @ [Print (''Error during OCR: '' @ str_exn e)])
         | Inr images \<Rightarrow>
             (case ocr_loop E s images 0 '''' of
                (None, extracted_text, evs) \<Rightarrow> (extracted_text, start @ evs)
              | (Some e, extracted_text, evs) \<Rightarrow>
                  (extracted_text, start @ evs @ [Print (''Error during OCR: '' @ str_exn e)])))"

subsection \<open>\<^verbatim>\<open>handle_upload\<close>\<close>

text \<open>
  The loop over \<^verbatim>\<open>reader.pages\<close>: a page whose text is \<^verbatim>\<open>None\<close> or empty adds nothing;
  an exception leaves the loop.
\<close>

fun extract_pages :: "page list \<Rightarrow> string \<Rightarrow> exn + string" where
  "extract_pages [] extracted_text = Inr extracted_text"
| "extract_pages (Inl e # pages) extracted_text = Inl e"
| "extract_pages (Inr None # pages) extracted_text = extract_pages pages extracted_text"
| "extract_pages (Inr (Some text) # pages) extracted_text =
     extract_pages pages (if text \<noteq> [] then extracted_text @ text else extracted_text)"

text \<open>The first \<^verbatim>\<open>try\<close> block: open the saved file, parse it, read every page.\<close>

definition read_pdf :: "'img env \<Rightarrow> path \<Rightarrow> (exn + string) \<times> 'img event list" where
  "read_pdf E upload_dir =
     (case PdfReader E upload_dir of
        Inl e \<Rightarrow> Inl e
      | Inr pages \<Rightarrow> extract_pages pages '''',
      [Call_PdfReader upload_dir])"

text \<open>
  The last part of the method, from \<^verbatim>\<open>app = self.get_app()\<close> on. \<^verbatim>\<open>get_app\<close> is called
  outside the \<^verbatim>\<open>try\<close>, and the handler catches \<^verbatim>\<open>ValueError\<close> only.
\<close>

definition add_to_knowledge_base ::
  "'img env \<Rightarrow> upload_file \<Rightarrow> path \<Rightarrow> string \<Rightarrow> State \<Rightarrow> 'img world \<Rightarrow> 'img result"
where
  "add_to_knowledge_base E file upload_dir extracted_text s w =
     (case get_app E s of
        (Inl e, evs) \<Rightarrow> (Some e, s, emit evs w)
      | (Inr app, evs) \<Rightarrow>
          (let temp_text_file = NamedTemporaryFile E (tmp_count w);
               w1 = (emit evs w)\<lparr>tmp_count := tmp_count w + 1,
                                 fs := (fs w)(temp_text_file \<mapsto> extracted_text)\<rparr>;
               size = (case fs w1 upload_dir of None \<Rightarrow> 0 | Some d \<Rightarrow> length d);
               w2 = emit [Print (''Uploading file: '' @ filename file @ '', Size: ''
                                  @ str_nat size @ '' bytes''),
                          Call_add temp_text_file] w1
           in case app_add E temp_text_file extracted_text of
                None \<Rightarrow>
                  (None,
                   s\<lparr>knowledge_base_files := knowledge_base_files s @ [pdf_filename s],
                     upload_status := ''Processed and added '' @ pdf_filename s
                                        @ '' to the knowledge base!''\<rparr>,
                   emit [Print ''File added successfully'']
                     (w2\<lparr>vectordb := (vectordb w2)(app := vectordb w2 app @ [temp_text_file])\<rparr>))
              | Some (ValueError m) \<Rightarrow>
                  (None,
                   s\<lparr>upload_status := ''Failed to process '' @ pdf_filename s
                                        @ ''. Error: '' @ m\<rparr>,
                   emit [Print (''Error adding file: '' @ m)] w2)
              | Some (OtherException m) \<Rightarrow> (Some (OtherException m), s, w2)))"

text \<open>Where the upload is saved: \<^verbatim>\<open>Path(rx.get_upload_dir()) / file.filename\<close>.\<close>

definition upload_path :: "'img env \<Rightarrow> upload_file \<Rightarrow> path" where
  "upload_path E file = get_upload_dir E @ ''/'' @ filename file"

definition handle_upload :: "'img env \<Rightarrow> upload_file list \<Rightarrow> State \<Rightarrow> 'img world \<Rightarrow> 'img result" where
  "handle_upload E files s w =
     (case files of
        [] \<Rightarrow> (None, s\<lparr>upload_status := ''No file uploaded!''\<rparr>, w)
      | file # _ \<Rightarrow>
          (let upload_data = file_bytes file;
               upload_dir = upload_path E file;
               s1 = s\<lparr>pdf_filename := filename file\<rparr>;
               w1 = w\<lparr>fs := (fs w)(upload_dir \<mapsto> upload_data)\<rparr>
           in if (case fs w1 upload_dir of None \<Rightarrow> True | Some d \<Rightarrow> length d = 0)
              then (None, s1\<lparr>upload_status := ''File not saved properly or is empty!''\<rparr>, w1)
              else
                (case read_pdf E upload_dir of
                   (Inl e, evs) \<Rightarrow>
                     (None,
                      s1\<lparr>upload_status := ''Error reading PDF with PyPDF2: '' @ str_exn e\<rparr>,
                      emit (evs @ [Print (''Error reading PDF with PyPDF2: '' @ str_exn e)]) w1)
                 | (Inr direct_text, evs) \<Rightarrow>
                     (let w2 = emit evs w1;
                          s2 = (if strip direct_text = []
                                then s1\<lparr>upload_status := ''No selectable text found in ''
                                         @ pdf_filename s1 @ '', performing OCR...''\<rparr>
                                else s1);
                          (extracted_text, ocr_evs) =
                               (if strip direct_text = []
                                then extract_text_with_ocr E s2 upload_dir
                                else (direct_text, []));
                          w3 = emit ocr_evs w2
                      in if strip extracted_text = []
                         then (None,
                               s2\<lparr>upload_status := ''OCR failed to extract meaningful content from ''
                                    @ pdf_filename s2\<rparr>,
                               w3)
                         else add_to_knowledge_base E file upload_dir extracted_text s2 w3))))"

subsection \<open>\<^verbatim>\<open>chat\<close> and \<^verbatim>\<open>clear_chat\<close>\<close>

definition chat :: "'img env \<Rightarrow> State \<Rightarrow> 'img world \<Rightarrow> 'img result" where
  "chat E s w =
     (if user_question s = [] then (None, s, w)
      else
        (case get_app E s of
           (Inl e, evs) \<Rightarrow> (Some e, s, emit evs w)
         | (Inr app, evs) \<Rightarrow>
             (let s1 = s\<lparr>messages := messages s
                          @ [\<lparr>role = ''user'', content = user_question s\<rparr>]\<rparr>;
                  w1 = emit (evs @ [Call_chat (user_question s1)]) w
              in case app_chat E (vectordb w1 app) (user_question s1) of
                   Inl e \<Rightarrow> (Some e, s1, w1)
                 | Inr response \<Rightarrow>
                     (None,
                      s1\<lparr>messages := messages s1 @ [\<lparr>role = ''assistant'', content = response\<rparr>],
                         user_question := ''''\<rparr>,
                      w1))))"

definition clear_chat :: "State \<Rightarrow> 'img world \<Rightarrow> 'img result" where
  "clear_chat s w = (None, s\<lparr>messages := []\<rparr>, w)"

section \<open>Notions used to state the properties\<close>

text \<open>Events of the OCR path, and events of the retrieval application.\<close>

fun is_ocr_event :: "'img event \<Rightarrow> bool" where
  "is_ocr_event (Call_convert_from_path p) = True"
| "is_ocr_event (Call_image_to_string img) = True"
| "is_ocr_event e = False"

fun is_store_event :: "'img event \<Rightarrow> bool" where
  "is_store_event (Call_from_config d) = True"
| "is_store_event (Call_add n) = True"
| "is_store_event (Call_chat q) = True"
| "is_store_event e = False"

text \<open>The text a page contributes to direct extraction: none when there is no text.\<close>

fun page_text :: "page \<Rightarrow> string" where
  "page_text (Inr (Some text)) = text"
| "page_text pg = []"

text \<open>
  The preprocessing pipeline in the words of the specification: grayscale, then contrast
  by a fixed factor, then sharpening, each stage fed with the image the stage before it
  produced, and an exception of a stage ending the pipeline.
\<close>

definition and_then :: "exn + 'a \<Rightarrow> ('a \<Rightarrow> exn + 'b) \<Rightarrow> exn + 'b" where
  "and_then r f = (case r of Inl e \<Rightarrow> Inl e | Inr x \<Rightarrow> f x)"





text \<open>
  The OCR pass in the words of the specification's failure modes: an error on a page is
  skipped, the page contributing no text, and the pages after it are still processed.
\<close>

fun ocr_text_continuing :: "'img env \<Rightarrow> State \<Rightarrow> 'img list \<Rightarrow> string" where
  "ocr_text_continuing E s [] = []"
| "ocr_text_continuing E s (img # images) =
     (case and_then (preprocess_image E s img) (image_to_string E) of
        Inl e \<Rightarrow> []
      | Inr t \<Rightarrow> t @ ''\<newline>\<newline>'')
     @ ocr_text_continuing E s images"

section \<open>An example session\<close>

text \<open>
  A concrete environment on which the handlers can be run. Images are numbers. Five
  uploads are told apart by their names: a contract with embedded text on two of its
  three pages, a two-page scan without embedded text, a page holding a single space whose
  scan is blank too, a three-page scan on whose second page the OCR engine fails, and
  anything else, which the parser rejects.
\<close>

definition demo_state :: State where
  "demo_state = \<lparr>messages = [], db_path = ''/tmp/kb'', pdf_filename = '''',
                  knowledge_base_files = [], user_question = '''', upload_status = ''''\<rparr>"

definition demo_world :: "nat world" where
  "demo_world = \<lparr>fs = Map.empty, vectordb = (\<lambda>_. []), tmp_count = 0, events = []\<rparr>"

definition demo_env :: "nat env" where
  "demo_env =
     \<lparr>get_upload_dir = ''uploads'',
      PdfReader = (\<lambda>p.
         if p = ''uploads/contract.pdf'' then Inr [Inr (Some ''Payment due ''), Inr None, Inr (Some ''in 30 days'')]
         else if p = ''uploads/scan.pdf'' then Inr [Inr None, Inr (Some '''')]
         else if p = ''uploads/blank.pdf'' then Inr [Inr (Some '' '')]
         else if p = ''uploads/torn.pdf'' then Inr [Inr None, Inr None, Inr None]
         else Inl (OtherException ''EOF marker not found'')),
      convert_from_path = (\<lambda>p.
         if p = ''uploads/scan.pdf'' then Inr [1, 2]
         else if p = ''uploads/blank.pdf'' then Inr [3]
         else if p = ''uploads/torn.pdf'' then Inr [4, 5, 6]
         else Inl (OtherException ''Unable to get page count'')),
      image_convert = (\<lambda>img mode. if mode = ''L'' then Inr (img + 10) else Inr img),
      Contrast_enhance = (\<lambda>img factor. if factor = 2 then Inr (img + 100) else Inr img),
      image_filter = (\<lambda>img f. if f = SHARPEN then Inr (img + 1000) else Inr img),
      image_to_string = (\<lambda>img.
         if img = 1111 then Inr ''Invoice''
         else if img = 1112 then Inr ''#123''
         else if img = 1113 then Inr ''  ''
         else if img = 1114 then Inr ''first''
         else if img = 1116 then Inr ''third''
         else Inl (OtherException ''tesseract failed'')),
      App_from_config = (\<lambda>dir. None),
      NamedTemporaryFile = (\<lambda>n. ''/tmp/tmp'' @ str_nat n @ ''.txt''),
      app_add = (\<lambda>name text. None),
      app_chat = (\<lambda>docs q. if docs = [] then Inl (OtherException ''connection refused'') else Inr ''In 30 days.'')\<rparr>"

definition contract_pdf :: upload_file where
  "contract_pdf = \<lparr>filename = ''contract.pdf'', file_bytes = ''%PDF-1.4''\<rparr>"

definition scan_pdf :: upload_file where
  "scan_pdf = \<lparr>filename = ''scan.pdf'', file_bytes = ''%PDF-1.4''\<rparr>"

definition blank_pdf :: upload_file where
  "blank_pdf = \<lparr>filename = ''blank.pdf'', file_bytes = ''%PDF-1.4''\<rparr>"

definition torn_pdf :: upload_file where
  "torn_pdf = \<lparr>filename = ''torn.pdf'', file_bytes = ''%PDF-1.4''\<rparr>"



text \<open>The contract uploaded once, and then once more into the session the first upload left.\<close>

definition first_upload :: "nat result" where
  "first_upload = handle_upload demo_env [contract_pdf] demo_state demo_world"

definition second_upload :: "nat result" where
  "second_upload =
     handle_upload demo_env [contract_pdf] (fst (snd first_upload)) (snd (snd first_upload))"

section \<open>Properties\<close>

subsection \<open>Facts about the parts of \<^verbatim>\<open>handle_upload\<close>\<close>

lemma strip_empty_iff: "strip s = [] \<longleftrightarrow> list_all isspace s"
proof
  assume "strip s = []"
  then have all_rest: "\<forall>c\<in>set (dropWhile isspace s). isspace c"
    by (simp add: strip_def)
  have "dropWhile isspace s = []"
  proof (rule ccontr)
    assume ne: "dropWhile isspace s \<noteq> []"
    then have "\<not> isspace (hd (dropWhile isspace s))"
      by (rule hd_dropWhile)
    moreover from ne have "hd (dropWhile isspace s) \<in> set (dropWhile isspace s)"
      by simp
    ultimately show False using all_rest by blast
  qed
  then show "list_all isspace s"
    by (simp add: list_all_iff)
next
  assume "list_all isspace s"
  then have "dropWhile isspace s = []"
    by (simp add: list_all_iff)
  then show "strip s = []"
    by (simp add: strip_def del: dropWhile_eq_Nil_conv)
qed

lemma extract_pages_acc:
  "extract_pages pages acc = Inr t \<Longrightarrow> t = acc @ concat (map page_text pages)"
  by (induction pages acc rule: extract_pages.induct) (auto split: if_splits)

lemma preprocess_image_state: "preprocess_image E s img = preprocess_image E s' img"
  by (simp add: preprocess_image_def)

lemma ocr_loop_state: "ocr_loop E s images i acc = ocr_loop E s' images i acc"
proof (induction images arbitrary: i acc)
  case Nil
  show ?case by simp
next
  case (Cons img images)
  show ?case
    using Cons.IH preprocess_image_state [of E s img s']
    by (simp split: sum.split prod.split)
qed

lemma extract_text_with_ocr_state:
  "extract_text_with_ocr E s p = extract_text_with_ocr E s' p"
  unfolding extract_text_with_ocr_def
  by (simp only: ocr_loop_state [of E s _ 0 "[]" s'])

lemma ocr_loop_no_store_event:
  "ocr_loop E s images i acc = (r, t, evs) \<Longrightarrow> \<not> list_ex is_store_event evs"
proof (induction images arbitrary: i acc r t evs)
  case Nil
  then show ?case by simp
next
  case (Cons img images)
  show ?case
  proof (cases "preprocess_image E s img")
    case (Inl e)
    with Cons.prems show ?thesis by auto
  next
    case pre: (Inr pimg)
    show ?thesis
    proof (cases "image_to_string E pimg")
      case (Inl e)
      with pre Cons.prems show ?thesis by auto
    next
      case (Inr ptext)
      obtain r' t' evs' where
        rest: "ocr_loop E s images (i + 1) (acc @ ptext @ ''\<newline>\<newline>'') = (r', t', evs')"
        by (rule prod_cases3)
      from Cons.IH [OF rest] have "\<not> list_ex is_store_event evs'" .
      with pre Inr rest Cons.prems show ?thesis by auto
    qed
  qed
qed

lemma extract_text_with_ocr_no_store_event:
  "\<not> list_ex is_store_event (snd (extract_text_with_ocr E s p))"
proof (cases "convert_from_path E p")
  case (Inl e)
  then show ?thesis by (simp add: extract_text_with_ocr_def)
next
  case (Inr images)
  obtain r t evs where loop: "ocr_loop E s images 0 [] = (r, t, evs)"
    by (rule prod_cases3)
  from ocr_loop_no_store_event [OF loop] have "\<not> list_ex is_store_event evs" .
  with Inr loop show ?thesis
    by (cases r) (simp_all add: extract_text_with_ocr_def)
qed

lemma extract_text_with_ocr_ocr_event:
  "list_ex is_ocr_event (snd (extract_text_with_ocr E s p))"
proof (cases "convert_from_path E p")
  case (Inl e)
  then show ?thesis by (simp add: extract_text_with_ocr_def)
next
  case (Inr images)
  obtain r t evs where loop: "ocr_loop E s images 0 [] = (r, t, evs)"
    by (rule prod_cases3)
  with Inr show ?thesis
    by (cases r) (simp_all add: extract_text_with_ocr_def)
qed

lemma ocr_loop_all_pages:
  assumes "map (preprocess_image E s) images = map Inr processed"
    and "map (image_to_string E) processed = map Inr texts"
  shows "\<exists>evs. ocr_loop E s images i acc
             = (None, acc @ concat (map (\<lambda>t. t @ ''\<newline>\<newline>'') texts), evs)
           \<and> filter is_ocr_event evs = map Call_image_to_string processed"
  using assms
proof (induction images arbitrary: processed texts i acc)
  case Nil
  then show ?case by simp
next
  case (Cons img images)
  from Cons.prems(1) obtain pimg ps where
    processed: "processed = pimg # ps" and pre: "preprocess_image E s img = Inr pimg"
    and pre_rest: "map (preprocess_image E s) images = map Inr ps"
    by (cases processed) auto
  from Cons.prems(2) processed obtain t ts where
    texts: "texts = t # ts" and ocr: "image_to_string E pimg = Inr t"
    and ocr_rest: "map (image_to_string E) ps = map Inr ts"
    by (cases texts) auto
  from Cons.IH [OF pre_rest ocr_rest, of "i + 1" "acc @ t @ ''\<newline>\<newline>''"]
  obtain evs where
    "ocr_loop E s images (i + 1) (acc @ t @ ''\<newline>\<newline>'')
       = (None, (acc @ t @ ''\<newline>\<newline>'') @ concat (map (\<lambda>t. t @ ''\<newline>\<newline>'') ts), evs)"
    and "filter is_ocr_event evs = map Call_image_to_string ps"
    by blast
  with processed texts pre ocr show ?case
    by simp
qed

lemma ocr_loop_error:
  assumes "map (preprocess_image E s) before = map Inr processed"
    and "map (image_to_string E) processed = map Inr texts"
    and "preprocess_image E s bad = Inr pbad"
    and "image_to_string E pbad = Inl e"
  shows "\<exists>evs. ocr_loop E s (before @ bad # later) i acc
             = (Some e, acc @ concat (map (\<lambda>t. t @ ''\<newline>\<newline>'') texts), evs)
           \<and> filter is_ocr_event evs = map Call_image_to_string (processed @ [pbad])"
  using assms(1,2)
proof (induction before arbitrary: processed texts i acc)
  case Nil
  with assms(3,4) show ?case by simp
next
  case (Cons img before)
  from Cons.prems(1) obtain pimg ps where
    processed: "processed = pimg # ps" and pre: "preprocess_image E s img = Inr pimg"
    and pre_rest: "map (preprocess_image E s) before = map Inr ps"
    by (cases processed) auto
  from Cons.prems(2) processed obtain t ts where
    texts: "texts = t # ts" and ocr: "image_to_string E pimg = Inr t"
    and ocr_rest: "map (image_to_string E) ps = map Inr ts"
    by (cases texts) auto
  from Cons.IH [OF pre_rest ocr_rest, of "i + 1" "acc @ t @ ''\<newline>\<newline>''"]
  obtain evs where
    "ocr_loop E s (before @ bad # later) (i + 1) (acc @ t @ ''\<newline>\<newline>'')
       = (Some e, (acc @ t @ ''\<newline>\<newline>'') @ concat (map (\<lambda>t. t @ ''\<newline>\<newline>'') ts), evs)"
    and "filter is_ocr_event evs = map Call_image_to_string (ps @ [pbad])"
    by blast
  with processed texts pre ocr show ?case
    by simp
qed

lemma extract_text_with_ocr_all_pages:
  assumes "convert_from_path E p = Inr images"
    and "map (preprocess_image E s) images = map Inr processed"
    and "map (image_to_string E) processed = map Inr texts"
  shows "fst (extract_text_with_ocr E s p) = concat (map (\<lambda>t. t @ ''\<newline>\<newline>'') texts)
    \<and> filter is_ocr_event (snd (extract_text_with_ocr E s p))
        = Call_convert_from_path p # map Call_image_to_string processed"
proof -
  from ocr_loop_all_pages [OF assms(2,3), of 0 "[]"] obtain evs where
    "ocr_loop E s images 0 [] = (None, concat (map (\<lambda>t. t @ ''\<newline>\<newline>'') texts), evs)"
    and "filter is_ocr_event evs = map Call_image_to_string processed"
    by auto
  with assms(1) show ?thesis
    by (simp add: extract_text_with_ocr_def)
qed

lemma add_to_knowledge_base_events:
  "add_to_knowledge_base E file p t s w = (r, s', w') \<Longrightarrow>
     \<exists>new. events w' = events w @ new \<and> \<not> list_ex is_ocr_event new"
  by (auto simp: add_to_knowledge_base_def get_app_def emit_def Let_def
      split: option.splits exn.splits)

lemma add_to_knowledge_base_success:
  "add_to_knowledge_base E file p t s w = (r, s', w') \<Longrightarrow> vectordb w' \<noteq> vectordb w \<Longrightarrow>
     r = None
     \<and> knowledge_base_files s' = knowledge_base_files s @ [pdf_filename s]
     \<and> upload_status s' = ''Processed and added '' @ pdf_filename s @ '' to the knowledge base!''"
  by (auto simp: add_to_knowledge_base_def get_app_def emit_def Let_def
      split: option.splits exn.splits)

lemma handle_upload_parse_error:
  assumes "file_bytes file \<noteq> []"
    and "read_pdf E (upload_path E file) = (Inl e, evs)"
  shows "handle_upload E (file # rest) s w =
      (None,
       s\<lparr>pdf_filename := filename file,
         upload_status := ''Error reading PDF with PyPDF2: '' @ str_exn e\<rparr>,
       emit (evs @ [Print (''Error reading PDF with PyPDF2: '' @ str_exn e)])
         (w\<lparr>fs := (fs w)(upload_path E file \<mapsto> file_bytes file)\<rparr>))"
  using assms by (simp add: handle_upload_def Let_def)

lemma handle_upload_direct:
  assumes "file_bytes file \<noteq> []"
    and "read_pdf E (upload_path E file) = (Inr direct, evs)"
    and "strip direct \<noteq> []"
  shows "handle_upload E (file # rest) s w =
      add_to_knowledge_base E file (upload_path E file) direct
        (s\<lparr>pdf_filename := filename file\<rparr>)
        (emit evs (w\<lparr>fs := (fs w)(upload_path E file \<mapsto> file_bytes file)\<rparr>))"
  using assms by (simp add: handle_upload_def Let_def emit_def)

lemma handle_upload_ocr:
  assumes "file_bytes file \<noteq> []"
    and "read_pdf E (upload_path E file) = (Inr direct, evs)"
    and "strip direct = []"
    and "s2 = s\<lparr>pdf_filename := filename file,
                 upload_status := ''No selectable text found in '' @ filename file
                                    @ '', performing OCR...''\<rparr>"
    and "extract_text_with_ocr E s2 (upload_path E file) = (t, ocr_evs)"
    and "w3 = emit (evs @ ocr_evs) (w\<lparr>fs := (fs w)(upload_path E file \<mapsto> file_bytes file)\<rparr>)"
  shows "handle_upload E (file # rest) s w =
      (if strip t = []
       then (None,
             s2\<lparr>upload_status := ''OCR failed to extract meaningful content from ''
                                   @ filename file\<rparr>,
             w3)
       else add_to_knowledge_base E file (upload_path E file) t s2 w3)"
  using assms by (simp add: handle_upload_def Let_def emit_def)

subsection \<open>Extraction\<close>

text \<open>
  C1. For an upload that is saved with at least one byte and that the parser reads without
  raising, the text of direct extraction is the concatenation of the page texts. The OCR
  path is entered exactly when that text consists of whitespace only (the empty text
  included). Otherwise \<^verbatim>\<open>handle_upload\<close> continues to ingestion with the direct text, and no
  OCR event follows the parser's. On the OCR path the pages are rasterized once, and when
  every page is preprocessed and read without error the OCR text is the concatenation of
  the page results, each followed by a blank line; it is that text that ingestion receives
  unless it is whitespace only.
\<close>

theorem handle_upload_extraction:
  assumes "files = file # rest" and "file_bytes file \<noteq> []"
    and "PdfReader E (upload_path E file) = Inr pages"
    and "extract_pages pages [] = Inr direct"
    and "p = upload_path E file"
    and "w1 = w\<lparr>fs := (fs w)(p \<mapsto> file_bytes file)\<rparr>"
    and "s2 = s\<lparr>pdf_filename := filename file,
                 upload_status := ''No selectable text found in '' @ filename file
                                    @ '', performing OCR...''\<rparr>"
  shows "direct = concat (map page_text pages)
    \<and> (\<exists>new. events (snd (snd (handle_upload E files s w)))
                 = events w @ Call_PdfReader p # new
              \<and> (list_ex is_ocr_event new \<longleftrightarrow> list_all isspace direct))
    \<and> (\<not> list_all isspace direct \<longrightarrow>
          handle_upload E files s w
            = add_to_knowledge_base E file p direct (s\<lparr>pdf_filename := filename file\<rparr>)
                (emit [Call_PdfReader p] w1))
    \<and> (list_all isspace direct \<longrightarrow>
          handle_upload E files s w
            = (let (t, ocr_evs) = extract_text_with_ocr E s2 p;
                   w3 = emit (Call_PdfReader p # ocr_evs) w1
               in if list_all isspace t
                  then (None,
                        s2\<lparr>upload_status := ''OCR failed to extract meaningful content from ''
                                              @ filename file\<rparr>,
                        w3)
                  else add_to_knowledge_base E file p t s2 w3))
    \<and> (\<forall>images processed texts.
          convert_from_path E p = Inr images
          \<and> map (preprocess_image E s2) images = map Inr processed
          \<and> map (image_to_string E) processed = map Inr texts
          \<longrightarrow> fst (extract_text_with_ocr E s2 p)
                = concat (map (\<lambda>t. t @ ''\<newline>\<newline>'') texts)
              \<and> filter is_ocr_event (snd (extract_text_with_ocr E s2 p))
                  = Call_convert_from_path p # map Call_image_to_string processed)"
proof -
  have read: "read_pdf E (upload_path E file) = (Inr direct, [Call_PdfReader p])"
    using assms(3,4,5) by (simp add: read_pdf_def)
  have text_eq: "direct = concat (map page_text pages)"
    using extract_pages_acc [OF assms(4)] by simp
  have direct_case: "handle_upload E files s w
            = add_to_knowledge_base E file p direct (s\<lparr>pdf_filename := filename file\<rparr>)
                (emit [Call_PdfReader p] w1)"
    if "\<not> list_all isspace direct"
  proof -
    from that have "strip direct \<noteq> []"
      by (simp add: strip_empty_iff)
    from handle_upload_direct [OF assms(2) read this, of rest s w] assms(1,5,6)
    show ?thesis by simp
  qed
  obtain t ocr_evs where ocr: "extract_text_with_ocr E s2 (upload_path E file) = (t, ocr_evs)"
    by (cases "extract_text_with_ocr E s2 (upload_path E file)")
  let ?w3 = "emit (Call_PdfReader p # ocr_evs) w1"
  have ocr_case: "handle_upload E files s w
            = (if list_all isspace t
               then (None,
                     s2\<lparr>upload_status := ''OCR failed to extract meaningful content from ''
                                           @ filename file\<rparr>,
                     ?w3)
               else add_to_knowledge_base E file p t s2 ?w3)"
    if "list_all isspace direct"
  proof -
    from that have "strip direct = []"
      by (simp add: strip_empty_iff)
    from handle_upload_ocr [OF assms(2) read this assms(7) ocr refl, of rest] assms(1,5,6)
    show ?thesis by (simp add: strip_empty_iff)
  qed
  have trace: "\<exists>new. events (snd (snd (handle_upload E files s w)))
                 = events w @ Call_PdfReader p # new
              \<and> (list_ex is_ocr_event new \<longleftrightarrow> list_all isspace direct)"
  proof (cases "list_all isspace direct")
    case False
    obtain r s' w' where
      add: "add_to_knowledge_base E file p direct (s\<lparr>pdf_filename := filename file\<rparr>)
              (emit [Call_PdfReader p] w1) = (r, s', w')"
      by (rule prod_cases3)
    from add_to_knowledge_base_events [OF add] obtain new where
      "events w' = events (emit [Call_PdfReader p] w1) @ new" and "\<not> list_ex is_ocr_event new"
      by blast
    with False direct_case add assms(6) show ?thesis
      by (simp add: emit_def)
  next
    case True
    have noisy: "list_ex is_ocr_event ocr_evs"
      using extract_text_with_ocr_ocr_event [of E s2 "upload_path E file"] ocr by simp
    show ?thesis
    proof (cases "list_all isspace t")
      case blank: True
      with True ocr_case noisy assms(6) show ?thesis
        by (simp add: emit_def)
    next
      case False
      obtain r s' w' where add: "add_to_knowledge_base E file p t s2 ?w3 = (r, s', w')"
        by (rule prod_cases3)
      from add_to_knowledge_base_events [OF add] obtain new where
        "events w' = events ?w3 @ new"
        by blast
      with True False ocr_case add noisy assms(6) show ?thesis
        by (simp add: emit_def)
    qed
  qed
  have pages: "fst (extract_text_with_ocr E s2 p)
                = concat (map (\<lambda>t. t @ ''\<newline>\<newline>'') texts)
              \<and> filter is_ocr_event (snd (extract_text_with_ocr E s2 p))
                  = Call_convert_from_path p # map Call_image_to_string processed"
    if "convert_from_path E p = Inr images"
      and "map (preprocess_image E s2) images = map Inr processed"
      and "map (image_to_string E) processed = map Inr texts"
    for images processed texts
    using extract_text_with_ocr_all_pages [OF that] .
  from text_eq trace direct_case ocr_case pages ocr assms(5) show ?thesis
    by (simp add: Let_def)
qed

theorem handle_upload_extraction_witness:
  "handle_upload demo_env [contract_pdf] demo_state demo_world
     = add_to_knowledge_base demo_env contract_pdf ''uploads/contract.pdf''
         ''Payment due in 30 days'' (demo_state\<lparr>pdf_filename := ''contract.pdf''\<rparr>)
         (emit [Call_PdfReader ''uploads/contract.pdf'']
            (demo_world\<lparr>fs := (fs demo_world)(''uploads/contract.pdf'' \<mapsto> ''%PDF-1.4'')\<rparr>))
   \<and> fst (extract_text_with_ocr demo_env
            (demo_state\<lparr>pdf_filename := ''scan.pdf'',
                        upload_status := ''No selectable text found in scan.pdf, performing OCR...''\<rparr>)
            ''uploads/scan.pdf'')
       = ''Invoice\<newline>\<newline>#123\<newline>\<newline>''
   \<and> filter is_ocr_event (snd (extract_text_with_ocr demo_env
            (demo_state\<lparr>pdf_filename := ''scan.pdf'',
                        upload_status := ''No selectable text found in scan.pdf, performing OCR...''\<rparr>)
            ''uploads/scan.pdf''))
       = [Call_convert_from_path ''uploads/scan.pdf'',
          Call_image_to_string 1111, Call_image_to_string 1112]"
proof -
  have c_bytes: "file_bytes contract_pdf \<noteq> []"
    by (simp add: contract_pdf_def)
  have c_parsed: "PdfReader demo_env (upload_path demo_env contract_pdf)
      = Inr [Inr (Some ''Payment due ''), Inr None, Inr (Some ''in 30 days'')]"
    by (simp add: demo_env_def upload_path_def contract_pdf_def)
  have c_direct: "extract_pages [Inr (Some ''Payment due ''), Inr None, Inr (Some ''in 30 days'')] []
      = Inr ''Payment due in 30 days''"
    by simp
  have c_text: "\<not> list_all isspace ''Payment due in 30 days''"
    by (simp add: isspace_def)
  note contract =
    handle_upload_extraction [where s = demo_state and w = demo_world and rest = "[]",
      OF refl c_bytes c_parsed c_direct refl refl refl]
  have first: "handle_upload demo_env [contract_pdf] demo_state demo_world
     = add_to_knowledge_base demo_env contract_pdf ''uploads/contract.pdf''
         ''Payment due in 30 days'' (demo_state\<lparr>pdf_filename := ''contract.pdf''\<rparr>)
         (emit [Call_PdfReader ''uploads/contract.pdf'']
            (demo_world\<lparr>fs := (fs demo_world)(''uploads/contract.pdf'' \<mapsto> ''%PDF-1.4'')\<rparr>))"
    using contract [THEN conjunct2, THEN conjunct2, THEN conjunct1] c_text
    by (simp add: upload_path_def contract_pdf_def demo_env_def)
  have s_bytes: "file_bytes scan_pdf \<noteq> []"
    by (simp add: scan_pdf_def)
  have s_parsed: "PdfReader demo_env (upload_path demo_env scan_pdf) = Inr [Inr None, Inr (Some [])]"
    by (simp add: demo_env_def upload_path_def scan_pdf_def)
  have s_direct: "extract_pages [Inr None, Inr (Some [])] [] = Inr []"
    by simp
  let ?s2 = "demo_state\<lparr>pdf_filename := filename scan_pdf,
               upload_status := ''No selectable text found in '' @ filename scan_pdf
                                  @ '', performing OCR...''\<rparr>"
  have s_images: "convert_from_path demo_env (upload_path demo_env scan_pdf) = Inr [1, 2]
      \<and> map (preprocess_image demo_env ?s2) [1, 2] = map Inr [1111, 1112]
      \<and> map (image_to_string demo_env) [1111, 1112] = map Inr [''Invoice'', ''#123'']"
    by (simp add: demo_env_def upload_path_def scan_pdf_def preprocess_image_def)
  note scan =
    handle_upload_extraction [where s = demo_state and w = demo_world and rest = "[]",
      OF refl s_bytes s_parsed s_direct refl refl refl]
  from scan [THEN conjunct2, THEN conjunct2, THEN conjunct2, THEN conjunct2, rule_format,
      OF s_images]
  have second: "fst (extract_text_with_ocr demo_env ?s2 (upload_path demo_env scan_pdf))
       = ''Invoice\<newline>\<newline>#123\<newline>\<newline>''
     \<and> filter is_ocr_event (snd (extract_text_with_ocr demo_env ?s2 (upload_path demo_env scan_pdf)))
       = [Call_convert_from_path (upload_path demo_env scan_pdf),
          Call_image_to_string 1111, Call_image_to_string 1112]"
    by simp
  have "upload_path demo_env scan_pdf = ''uploads/scan.pdf''" and "filename scan_pdf = ''scan.pdf''"
    by (simp_all add: upload_path_def scan_pdf_def demo_env_def)
  with first second show ?thesis
    by simp
qed

text \<open>
  C2, as the code has it. The \<^verbatim>\<open>try\<close> encloses the whole loop: when the OCR engine raises
  on a page, the error is printed and the loop is left. The text returned is that of the
  pages before the failing one, each followed by a blank line; the failing page and every
  page after it contribute nothing, and no page after it is handed to the OCR engine.
\<close>

theorem ocr_error_ends_extraction:
  assumes "convert_from_path E p = Inr (before @ bad # later)"
    and "map (preprocess_image E s) before = map Inr processed"
    and "map (image_to_string E) processed = map Inr texts"
    and "preprocess_image E s bad = Inr pbad"
    and "image_to_string E pbad = Inl e"
  shows "fst (extract_text_with_ocr E s p) = concat (map (\<lambda>t. t @ ''\<newline>\<newline>'') texts)
    \<and> last (snd (extract_text_with_ocr E s p)) = Print (''Error during OCR: '' @ str_exn e)
    \<and> filter is_ocr_event (snd (extract_text_with_ocr E s p))
        = Call_convert_from_path p # map Call_image_to_string (processed @ [pbad])"
proof -
  from ocr_loop_error [OF assms(2-5), of later 0 "[]"] obtain evs where
    "ocr_loop E s (before @ bad # later) 0 []
       = (Some e, concat (map (\<lambda>t. t @ ''\<newline>\<newline>'') texts), evs)"
    and "filter is_ocr_event evs = map Call_image_to_string (processed @ [pbad])"
    by auto
  with assms(1) show ?thesis
    by (simp add: extract_text_with_ocr_def)
qed

theorem ocr_error_ends_extraction_witness:
  "fst (extract_text_with_ocr demo_env demo_state ''uploads/torn.pdf'') = ''first\<newline>\<newline>''
   \<and> last (snd (extract_text_with_ocr demo_env demo_state ''uploads/torn.pdf''))
       = Print ''Error during OCR: tesseract failed''
   \<and> filter is_ocr_event (snd (extract_text_with_ocr demo_env demo_state ''uploads/torn.pdf''))
       = [Call_convert_from_path ''uploads/torn.pdf'',
          Call_image_to_string 1114, Call_image_to_string 1115]"
proof -
  have images: "convert_from_path demo_env ''uploads/torn.pdf'' = Inr ([4] @ 5 # [6])"
    by (simp add: demo_env_def)
  have pre: "map (preprocess_image demo_env demo_state) [4] = map Inr [1114]"
    by (simp add: demo_env_def preprocess_image_def)
  have ocr: "map (image_to_string demo_env) [1114] = map Inr [''first'']"
    by (simp add: demo_env_def)
  have pre_bad: "preprocess_image demo_env demo_state 5 = Inr 1115"
    by (simp add: demo_env_def preprocess_image_def)
  have ocr_bad: "image_to_string demo_env 1115 = Inl (OtherException ''tesseract failed'')"
    by (simp add: demo_env_def)
  from ocr_error_ends_extraction [OF images pre ocr pre_bad ocr_bad]
  show ?thesis by simp
qed

text \<open>
  The claim C2 as the specification words it fails on the three-page scan: the OCR engine
  raises on the second page, the third page would be read as \<^verbatim>\<open>third\<close>, and the text
  returned holds the first page only.
\<close>

theorem ocr_page_after_error_is_lost:
  "convert_from_path demo_env ''uploads/torn.pdf'' = Inr [4, 5, 6]
   \<and> preprocess_image demo_env demo_state 5 = Inr 1115
   \<and> image_to_string demo_env 1115 = Inl (OtherException ''tesseract failed'')
   \<and> preprocess_image demo_env demo_state 6 = Inr 1116
   \<and> image_to_string demo_env 1116 = Inr ''third''
   \<and> ocr_text_continuing demo_env demo_state [4, 5, 6] = ''first\<newline>\<newline>third\<newline>\<newline>''
   \<and> fst (extract_text_with_ocr demo_env demo_state ''uploads/torn.pdf'') = ''first\<newline>\<newline>''
   \<and> fst (extract_text_with_ocr demo_env demo_state ''uploads/torn.pdf'')
       \<noteq> ocr_text_continuing demo_env demo_state [4, 5, 6]"
  by code_simp



text \<open>
  C5. When direct extraction finds only whitespace and the OCR pass returns only whitespace
  too, \<^verbatim>\<open>handle_upload\<close> returns with the status saying that OCR failed: the knowledge-base
  list is the old one, no application is built, nothing is added to the vector store and no
  temporary file is made.
\<close>

theorem handle_upload_blank_ocr_reports_failure:
  assumes "files = file # rest" and "file_bytes file \<noteq> []"
    and "PdfReader E (upload_path E file) = Inr pages"
    and "extract_pages pages [] = Inr direct"
    and "list_all isspace direct"
    and "list_all isspace (fst (extract_text_with_ocr E s0 (upload_path E file)))"
    and "handle_upload E files s w = (r, s', w')"
  shows "r = None
    \<and> upload_status s' = ''OCR failed to extract meaningful content from '' @ filename file
    \<and> knowledge_base_files s' = knowledge_base_files s
    \<and> vectordb w' = vectordb w
    \<and> tmp_count w' = tmp_count w
    \<and> (\<exists>new. events w' = events w @ new \<and> \<not> list_ex is_store_event new)"
proof -
  let ?p = "upload_path E file"
  let ?s2 = "s\<lparr>pdf_filename := filename file,
               upload_status := ''No selectable text found in '' @ filename file
                                  @ '', performing OCR...''\<rparr>"
  have read: "read_pdf E ?p = (Inr direct, [Call_PdfReader ?p])"
    using assms(3,4) by (simp add: read_pdf_def)
  have blank: "strip direct = []"
    using assms(5) by (simp add: strip_empty_iff)
  obtain t ocr_evs where ocr: "extract_text_with_ocr E ?s2 ?p = (t, ocr_evs)"
    by (cases "extract_text_with_ocr E ?s2 ?p")
  have "extract_text_with_ocr E s0 ?p = (t, ocr_evs)"
    using ocr extract_text_with_ocr_state [of E s0 ?p ?s2] by simp
  then have "t = fst (extract_text_with_ocr E s0 ?p)"
    by simp
  with assms(6) have ocr_blank: "strip t = []"
    by (simp add: strip_empty_iff)
  have quiet: "\<not> list_ex is_store_event ocr_evs"
    using extract_text_with_ocr_no_store_event [of E ?s2 ?p] ocr by simp
  from handle_upload_ocr [OF assms(2) read blank refl ocr refl, of rest w] ocr_blank assms(1,7)
  have "r = None" and "s' = ?s2\<lparr>upload_status :=
            ''OCR failed to extract meaningful content from '' @ filename file\<rparr>"
    and "w' = emit ([Call_PdfReader ?p] @ ocr_evs) (w\<lparr>fs := (fs w)(?p \<mapsto> file_bytes file)\<rparr>)"
    by simp_all
  with quiet show ?thesis
    by (simp add: emit_def)
qed

theorem handle_upload_blank_ocr_reports_failure_witness:
  "fst (handle_upload demo_env [blank_pdf] demo_state demo_world) = None
   \<and> upload_status (fst (snd (handle_upload demo_env [blank_pdf] demo_state demo_world)))
       = ''OCR failed to extract meaningful content from blank.pdf''
   \<and> knowledge_base_files (fst (snd (handle_upload demo_env [blank_pdf] demo_state demo_world))) = []
   \<and> vectordb (snd (snd (handle_upload demo_env [blank_pdf] demo_state demo_world))) = (\<lambda>d. [])"
proof -
  obtain r s' w' where run: "handle_upload demo_env [blank_pdf] demo_state demo_world = (r, s', w')"
    by (rule prod_cases3)
  have bytes: "file_bytes blank_pdf \<noteq> []"
    by (simp add: blank_pdf_def)
  have parsed: "PdfReader demo_env (upload_path demo_env blank_pdf) = Inr [Inr (Some '' '')]"
    by (simp add: demo_env_def upload_path_def blank_pdf_def)
  have direct: "extract_pages [Inr (Some '' '')] [] = Inr '' ''"
    by simp
  have direct_blank: "list_all isspace '' ''"
    by (simp add: isspace_def)
  have ocr_blank:
    "list_all isspace (fst (extract_text_with_ocr demo_env demo_state (upload_path demo_env blank_pdf)))"
    by (simp add: extract_text_with_ocr_def preprocess_image_def demo_env_def upload_path_def
        blank_pdf_def isspace_def)
  from handle_upload_blank_ocr_reports_failure [OF refl bytes parsed direct direct_blank ocr_blank run]
  show ?thesis
    unfolding run
    by (simp add: demo_state_def demo_world_def blank_pdf_def)
qed

subsection \<open>Ingestion\<close>

text \<open>
  C4, as the code has it. An upload that the vector store takes in (it is the only thing
  that changes the store) appends the file's name to the knowledge-base list, whatever the
  list holds already, so that the name occurs once more than before; the status becomes
  \<^verbatim>\<open>Processed and added <filename> to the knowledge base!\<close>.
\<close>

theorem handle_upload_success_appends_filename:
  assumes "handle_upload E files s w = (r, s', w')" and "vectordb w' \<noteq> vectordb w"
  shows "\<exists>file rest. files = file # rest
    \<and> r = None
    \<and> knowledge_base_files s' = knowledge_base_files s @ [filename file]
    \<and> count_list (knowledge_base_files s') (filename file)
        = count_list (knowledge_base_files s) (filename file) + 1
    \<and> upload_status s' = ''Processed and added '' @ filename file @ '' to the knowledge base!''"
proof (cases files)
  case Nil
  with assms show ?thesis by (auto simp: handle_upload_def)
next
  case (Cons f rest)
  let ?p = "upload_path E f"
  let ?w1 = "w\<lparr>fs := (fs w)(?p \<mapsto> file_bytes f)\<rparr>"
  have goal_from: "knowledge_base_files s' = knowledge_base_files s @ [filename f]
      \<and> r = None
      \<and> upload_status s' = ''Processed and added '' @ filename f @ '' to the knowledge base!''
    \<Longrightarrow> ?thesis"
    using Cons by simp
  show ?thesis
  proof (cases "file_bytes f = []")
    case True
    with assms Cons show ?thesis by (auto simp: handle_upload_def Let_def)
  next
    case bytes: False
    obtain res evs where read: "read_pdf E ?p = (res, evs)"
      by (cases "read_pdf E ?p")
    show ?thesis
    proof (cases res)
      case (Inl e)
      from handle_upload_parse_error [OF bytes read [unfolded Inl], of rest s w] assms Cons
      show ?thesis by (auto simp: emit_def)
    next
      case (Inr direct)
      show ?thesis
      proof (cases "strip direct = []")
        case False
        from handle_upload_direct [OF bytes read [unfolded Inr] False, of rest s w] assms(1) Cons
        have add: "add_to_knowledge_base E f ?p direct (s\<lparr>pdf_filename := filename f\<rparr>)
                     (emit evs ?w1) = (r, s', w')"
          by simp
        have "vectordb w' \<noteq> vectordb (emit evs ?w1)"
          using assms(2) by (simp add: emit_def)
        from add_to_knowledge_base_success [OF add this]
        show ?thesis by (intro goal_from) simp
      next
        case True
        let ?s2 = "s\<lparr>pdf_filename := filename f,
                     upload_status := ''No selectable text found in '' @ filename f
                                        @ '', performing OCR...''\<rparr>"
        obtain t ocr_evs where ocr: "extract_text_with_ocr E ?s2 ?p = (t, ocr_evs)"
          by (cases "extract_text_with_ocr E ?s2 ?p")
        let ?w3 = "emit (evs @ ocr_evs) ?w1"
        note run = handle_upload_ocr [OF bytes read [unfolded Inr] True refl ocr refl, of rest w]
        show ?thesis
        proof (cases "strip t = []")
          case True
          with run assms Cons show ?thesis by (auto simp: emit_def)
        next
          case False
          with run assms(1) Cons
          have add: "add_to_knowledge_base E f ?p t ?s2 ?w3 = (r, s', w')"
            by simp
          have "vectordb w' \<noteq> vectordb ?w3"
            using assms(2) by (simp add: emit_def)
          from add_to_knowledge_base_success [OF add this]
          show ?thesis by (intro goal_from) simp
        qed
      qed
    qed
  qed
qed

theorem handle_upload_success_appends_filename_witness:
  "knowledge_base_files (fst (snd first_upload)) = [''contract.pdf'']
   \<and> upload_status (fst (snd first_upload))
       = ''Processed and added contract.pdf to the knowledge base!''"
proof -
  obtain r s' w' where
    run: "handle_upload demo_env [contract_pdf] demo_state demo_world = (r, s', w')"
    by (rule prod_cases3)
  have "vectordb (snd (snd first_upload)) ''/tmp/kb'' \<noteq> vectordb demo_world ''/tmp/kb''"
    by code_simp
  with run have changed: "vectordb w' \<noteq> vectordb demo_world"
    by (auto simp: first_upload_def)
  from handle_upload_success_appends_filename [OF run changed]
  have "knowledge_base_files s' = knowledge_base_files demo_state @ [filename contract_pdf]"
    and "upload_status s'
           = ''Processed and added '' @ filename contract_pdf @ '' to the knowledge base!''"
    by auto
  then show ?thesis
    unfolding first_upload_def run
    by (simp add: contract_pdf_def demo_state_def)
qed

text \<open>
  The claim C4 as the specification words it fails when the contract is uploaded twice:
  both uploads succeed and the list holds the name twice.
\<close>

theorem handle_upload_twice_lists_filename_twice:
  "upload_status (fst (snd first_upload))
     = ''Processed and added contract.pdf to the knowledge base!''
   \<and> upload_status (fst (snd second_upload))
       = ''Processed and added contract.pdf to the knowledge base!''
   \<and> knowledge_base_files (fst (snd second_upload)) = [''contract.pdf'', ''contract.pdf'']
   \<and> count_list (knowledge_base_files (fst (snd second_upload))) ''contract.pdf'' \<noteq> 1"
  by code_simp

subsection \<open>Chat and preprocessing\<close>

text \<open>
  C7. \<^verbatim>\<open>clear_chat\<close> returns normally, leaves the message sequence empty, and changes no
  other field of the state and nothing outside it: the knowledge-base list, the vector
  database directory, the pending question, the upload status and the name of the last PDF
  are those of the state it started from, and the files, the vector store and the trace are
  untouched.
\<close>

theorem clear_chat_frame:
  "clear_chat s w = (None, s\<lparr>messages := []\<rparr>, w)
   \<and> messages (fst (snd (clear_chat s w))) = []
   \<and> knowledge_base_files (fst (snd (clear_chat s w))) = knowledge_base_files s
   \<and> db_path (fst (snd (clear_chat s w))) = db_path s
   \<and> user_question (fst (snd (clear_chat s w))) = user_question s
   \<and> upload_status (fst (snd (clear_chat s w))) = upload_status s
   \<and> pdf_filename (fst (snd (clear_chat s w))) = pdf_filename s
   \<and> snd (snd (clear_chat s w)) = w"
  by (simp add: clear_chat_def)

lemma chat_messages_extend:
  "\<exists>new. messages (fst (snd (chat E s w))) = messages s @ new"
  by (simp add: chat_def get_app_def emit_def Let_def split: sum.split option.split)

text \<open>
  C10. With an empty pending question \<^verbatim>\<open>chat\<close> returns at once: the state is the one it
  was called on, and so is the world, whose trace therefore records neither the
  construction of the application nor a call of the language model.
\<close>

theorem chat_empty_question_noop:
  "user_question s = [] \<Longrightarrow> chat E s w = (None, s, w)"
  by (simp add: chat_def)

theorem chat_empty_question_noop_witness:
  "user_question demo_state = []
   \<and> chat demo_env demo_state demo_world = (None, demo_state, demo_world)"
  using chat_empty_question_noop [of demo_state demo_env demo_world]
  by (simp add: demo_state_def)

text \<open>
  C8. When the pending question is not empty, the application is built and the language
  model answers, \<^verbatim>\<open>chat\<close> returns normally and the message sequence is the old one followed
  by a user entry holding the question and an assistant entry holding the answer, in this
  order. Whatever happens in \<^verbatim>\<open>chat\<close>, the old sequence is a prefix of the new one.
\<close>

theorem chat_appends_question_then_answer:
  "(user_question s \<noteq> []
      \<and> App_from_config E (db_path s) = None
      \<and> app_chat E (vectordb w (db_path s)) (user_question s) = Inr response
    \<longrightarrow> fst (chat E s w) = None
        \<and> messages (fst (snd (chat E s w)))
            = messages s @ [\<lparr>role = ''user'', content = user_question s\<rparr>,
                            \<lparr>role = ''assistant'', content = response\<rparr>])
   \<and> (\<exists>new. messages (fst (snd (chat E s w))) = messages s @ new)"
  using chat_messages_extend [of E s w]
  by (simp add: chat_def get_app_def emit_def Let_def)

theorem chat_appends_question_then_answer_witness:
  "fst (chat demo_env
       (demo_state\<lparr>messages := [\<lparr>role = ''user'', content = ''Hello''\<rparr>],
                    user_question := ''What is the due date?''\<rparr>)
       (demo_world\<lparr>vectordb := (\<lambda>d. [''/tmp/tmp0.txt''])\<rparr>)) = None
   \<and> messages (fst (snd (chat demo_env
       (demo_state\<lparr>messages := [\<lparr>role = ''user'', content = ''Hello''\<rparr>],
                    user_question := ''What is the due date?''\<rparr>)
       (demo_world\<lparr>vectordb := (\<lambda>d. [''/tmp/tmp0.txt''])\<rparr>))))
   = [\<lparr>role = ''user'', content = ''Hello''\<rparr>,
      \<lparr>role = ''user'', content = ''What is the due date?''\<rparr>,
      \<lparr>role = ''assistant'', content = ''In 30 days.''\<rparr>]"
proof -
  let ?s = "demo_state\<lparr>messages := [\<lparr>role = ''user'', content = ''Hello''\<rparr>],
                        user_question := ''What is the due date?''\<rparr>"
  let ?w = "demo_world\<lparr>vectordb := (\<lambda>d. [''/tmp/tmp0.txt''])\<rparr>"
  have "user_question ?s \<noteq> []
      \<and> App_from_config demo_env (db_path ?s) = None
      \<and> app_chat demo_env (vectordb ?w (db_path ?s)) (user_question ?s) = Inr ''In 30 days.''"
    by (simp add: demo_state_def demo_env_def demo_world_def)
  with chat_appends_question_then_answer [of ?s demo_env ?w "''In 30 days.''"]
  show ?thesis by (simp add: demo_state_def)
qed

text \<open>
  C9. When the pending question is not empty, the application is built and the call of the
  language model raises, the exception leaves \<^verbatim>\<open>chat\<close>; the state it leaves behind has the
  user entry appended, no assistant entry, and the pending question still in place.
\<close>

theorem chat_llm_error_propagates:
  assumes "user_question s \<noteq> []"
    and "App_from_config E (db_path s) = None"
    and "app_chat E (vectordb w (db_path s)) (user_question s) = Inl e"
  shows "chat E s w =
      (Some e,
       s\<lparr>messages := messages s @ [\<lparr>role = ''user'', content = user_question s\<rparr>]\<rparr>,
       emit [Call_from_config (db_path s), Call_chat (user_question s)] w)"
  using assms by (simp add: chat_def get_app_def emit_def Let_def)

theorem chat_llm_error_propagates_witness:
  "chat demo_env (demo_state\<lparr>user_question := ''What is the due date?''\<rparr>) demo_world =
     (Some (OtherException ''connection refused''),
      demo_state\<lparr>messages := [\<lparr>role = ''user'', content = ''What is the due date?''\<rparr>],
                  user_question := ''What is the due date?''\<rparr>,
      demo_world\<lparr>events := [Call_from_config ''/tmp/kb'', Call_chat ''What is the due date?'']\<rparr>)"
  using chat_llm_error_propagates
    [of "demo_state\<lparr>user_question := ''What is the due date?''\<rparr>" demo_env demo_world
        "OtherException ''connection refused''"]
  by (simp add: demo_state_def demo_env_def demo_world_def emit_def)



end
